theory Spec2Isabelle
  imports Complex_Main
begin

section \<open>The AdvancedImage component (src/components/ui/AdvancedImage.tsx)\<close>

text \<open>
  The component is a React function component. Its pure helpers (\<open>generateSources\<close>,
  \<open>generateSrcSet\<close>) are HOL functions; its hooks are explicit state passing: the
  \<open>useState\<close> cells are a record, the two \<open>useEffect\<close> hooks are functions run by
  \<open>mount\<close>, \<open>update\<close> and \<open>unmount\<close> with their dependency arrays compared as React does,
  and the document head is a list of nodes with identities. JSX is a tree datatype.

  A JavaScript string is modelled as \<open>string\<close>: one \<open>char\<close> stands for one code unit,
  so the strings covered are those whose code units are below 256.
\<close>

subsection \<open>String primitives\<close>

text \<open>\<^verbatim>\<open>String.prototype.startsWith\<close>.\<close>

definition startsWith :: "string \<Rightarrow> string \<Rightarrow> bool" where
  "startsWith s p = (take (length p) s = p)"

text \<open>
  The regular expression \<^verbatim>\<open>/\.(jpg|jpeg|png)$/i\<close>. With the \<^verbatim>\<open>i\<close> flag two code units
  match when their canonical forms (upper case) agree; a code unit outside ASCII never
  canonicalises to an ASCII one, so only the ASCII letters are folded here.
\<close>

definition canonicalize :: "char \<Rightarrow> char" where
  "canonicalize c =
     (case map_of (zip ''abcdefghijklmnopqrstuvwxyz'' ''ABCDEFGHIJKLMNOPQRSTUVWXYZ'') c of
        None \<Rightarrow> c
      | Some u \<Rightarrow> u)"

text \<open>The rest of the input, up to its end (\<^verbatim>\<open>$\<close>), is the literal up to case.\<close>

definition matches_ci :: "string \<Rightarrow> string \<Rightarrow> bool" where
  "matches_ci lit s = (map canonicalize s = map canonicalize lit)"

definition raster_ext_here :: "string \<Rightarrow> bool" where
  "raster_ext_here s =
     (matches_ci ''.jpg'' s \<or> matches_ci ''.jpeg'' s \<or> matches_ci ''.png'' s)"

text \<open>
  \<^verbatim>\<open>baseSrc.replace(/\.(jpg|jpeg|png)$/i, '')\<close>: the start positions are tried from the
  left; the first match (which reaches the end of the input) is replaced by the empty
  string, and an input with no match is returned as it is.
\<close>

fun replace_raster_ext :: "string \<Rightarrow> string" where
  "replace_raster_ext [] = []"
| "replace_raster_ext (c # cs) =
     (if raster_ext_here (c # cs) then [] else c # replace_raster_ext cs)"

text \<open>\<^verbatim>\<open>Array.prototype.join\<close>.\<close>

fun join :: "string \<Rightarrow> string list \<Rightarrow> string" where
  "join sep [] = []"
| "join sep [a] = a"
| "join sep (a # b # rest) = a @ sep @ join sep (b # rest)"

subsection \<open>Source sets\<close>

record variants =
  xs :: string
  sm :: string
  md :: string
  lg :: string
  xl :: string
  original :: string

text \<open>The sources of one format: a plain string, or the object of six variants.\<close>

datatype format_sources = Url string | Breakpoints variants

record sources =
  avif :: format_sources
  webp :: format_sources
  jpeg :: format_sources

definition generateSources :: "string \<Rightarrow> sources" where
  "generateSources baseSrc =
     (if \<not> startsWith baseSrc ''/Collection/''
      then \<lparr>avif = Url baseSrc, webp = Url baseSrc, jpeg = Url baseSrc\<rparr>
      else
        let basePath = replace_raster_ext baseSrc in
        \<lparr>avif = Breakpoints
           \<lparr>xs = basePath @ ''-xs.avif'',
            sm = basePath @ ''-sm.avif'',
            md = basePath @ ''-md.avif'',
            lg = basePath @ ''-lg.avif'',
            xl = basePath @ ''-xl.avif'',
            original = basePath @ ''.avif''\<rparr>,
         webp = Breakpoints
           \<lparr>xs = basePath @ ''-xs.webp'',
            sm = basePath @ ''-sm.webp'',
            md = basePath @ ''-md.webp'',
            lg = basePath @ ''-lg.webp'',
            xl = basePath @ ''-xl.webp'',
            original = basePath @ ''.webp''\<rparr>,
         jpeg = Breakpoints
           \<lparr>xs = basePath @ ''-xs.jpg'',
            sm = basePath @ ''-sm.jpg'',
            md = basePath @ ''-md.jpg'',
            lg = basePath @ ''-lg.jpg'',
            xl = basePath @ ''-xl.jpg'',
            original = baseSrc\<rparr>\<rparr>)"

text \<open>The array literal that \<open>generateSrcSet\<close> joins.\<close>

definition srcset_entries :: "variants \<Rightarrow> string list" where
  "srcset_entries f =
     [xs f @ '' 300w'',
      sm f @ '' 400w'',
      md f @ '' 600w'',
      lg f @ '' 800w'',
      xl f @ '' 1200w'',
      original f @ '' 1600w'']"

fun generateSrcSet :: "format_sources \<Rightarrow> string" where
  "generateSrcSet (Url u) = u"
| "generateSrcSet (Breakpoints f) = join '', '' (srcset_entries f)"

text \<open>
  "Ends in .jpg, .jpeg or .png, case-insensitive", written with the last characters of
  the string rather than with the regular expression.
\<close>

definition ends_with_ci :: "string \<Rightarrow> string \<Rightarrow> bool" where
  "ends_with_ci s e =
     (length e \<le> length s \<and>
      map canonicalize (drop (length s - length e) s) = map canonicalize e)"

definition ends_in_raster_ext :: "string \<Rightarrow> bool" where
  "ends_in_raster_ext s =
     (ends_with_ci s ''.jpg'' \<or> ends_with_ci s ''.jpeg'' \<or> ends_with_ci s ''.png'')"

subsection \<open>Props\<close>

datatype loading_mode = Lazy | Eager

datatype priority_hint = High | Low

text \<open>
  A callback of the caller is opaque: it is known by a name, and calling it is an
  observable event. A \<^verbatim>\<open>React.CSSProperties\<close> object is a list of declarations.
\<close>

type_synonym callback = nat

type_synonym css = "(string \<times> string) list"

text \<open>\<^verbatim>\<open>AdvancedImageProps\<close>; an optional prop that is not passed is \<open>None\<close>.\<close>

record props =
  src :: string
  alt :: string
  className :: "string option"
  loading :: "loading_mode option"
  priority :: "priority_hint option"
  sizes :: "string option"
  onLoad :: "callback option"
  onError :: "callback option"
  style :: "css option"
  placeholder :: "bool option"
  blurDataURL :: "string option"

text \<open>The defaults of the destructuring parameter.\<close>

definition loading_of :: "props \<Rightarrow> loading_mode" where
  "loading_of p = (case loading p of None \<Rightarrow> Lazy | Some l \<Rightarrow> l)"

definition priority_of :: "props \<Rightarrow> priority_hint" where
  "priority_of p = (case priority p of None \<Rightarrow> Low | Some h \<Rightarrow> h)"

definition sizes_of :: "props \<Rightarrow> string" where
  "sizes_of p =
     (case sizes p of
        None \<Rightarrow> ''(max-width: 640px) 400px, (max-width: 1024px) 600px, (max-width: 1280px) 800px, 1200px''
      | Some z \<Rightarrow> z)"

definition placeholder_of :: "props \<Rightarrow> bool" where
  "placeholder_of p = (case placeholder p of None \<Rightarrow> True | Some b \<Rightarrow> b)"

fun loading_str :: "loading_mode \<Rightarrow> string" where
  "loading_str Lazy = ''lazy''"
| "loading_str Eager = ''eager''"

fun priority_str :: "priority_hint \<Rightarrow> string" where
  "priority_str High = ''high''"
| "priority_str Low = ''low''"

text \<open>Truthiness of an optional string: \<^verbatim>\<open>undefined\<close> and the empty string are falsy.\<close>

fun truthy :: "string option \<Rightarrow> bool" where
  "truthy None = False"
| "truthy (Some s) = (s \<noteq> [])"

subsection \<open>Hook state and the ambient globals\<close>

text \<open>The three \<^verbatim>\<open>useState\<close> cells.\<close>

record load_state =
  isLoaded :: bool
  hasError :: bool
  loadStartTime :: real

definition initial_state :: load_state where
  "initial_state = \<lparr>isLoaded = False, hasError = False, loadStartTime = 0\<rparr>"

text \<open>
  What the code reads from its surroundings: \<^verbatim>\<open>performance.now()\<close> and
  \<^verbatim>\<open>process.env.NODE_ENV\<close>.
\<close>

record env =
  now :: real
  node_env :: string

text \<open>
  What a handler does besides setting state. The first argument of \<^verbatim>\<open>console.warn\<close>
  is kept as a message without its leading pictograph; \<^verbatim>\<open>console.log\<close> is kept with
  the elapsed time it prints and the source URL.
\<close>

datatype action =
    Invoke callback
  | ConsoleLog real string
  | ConsoleWarn string string

text \<open>\<^verbatim>\<open>cb?.()\<close>\<close>

fun call_opt :: "callback option \<Rightarrow> action list" where
  "call_opt None = []"
| "call_opt (Some f) = [Invoke f]"

definition handleLoad :: "env \<Rightarrow> props \<Rightarrow> load_state \<Rightarrow> load_state \<times> action list" where
  "handleLoad e p st =
     (let loadTime = now e - loadStartTime st in
      (st\<lparr>isLoaded := True\<rparr>,
       call_opt (onLoad p) @
       (if node_env e = ''development'' then [ConsoleLog loadTime (src p)] else [])))"

definition handleError :: "env \<Rightarrow> props \<Rightarrow> load_state \<Rightarrow> load_state \<times> action list" where
  "handleError e p st =
     (st\<lparr>hasError := True\<rparr>,
      call_opt (onError p) @ [ConsoleWarn ''Advanced image failed to load:'' (src p)])"

text \<open>The body of the first effect (dependencies \<^verbatim>\<open>[src]\<close>).\<close>

definition timing_effect :: "env \<Rightarrow> load_state \<Rightarrow> load_state" where
  "timing_effect e st = st\<lparr>loadStartTime := now e\<rparr>"

subsection \<open>The document head and the preload effect\<close>

text \<open>A \<^verbatim>\<open>link\<close> element: its identity and the four properties the effect sets.\<close>

record link_el =
  nid :: nat
  rel :: string
  as_attr :: string
  href :: string
  fetchPriority :: string

text \<open>The children of \<^verbatim>\<open>document.head\<close>, and the identity of the next node created.\<close>

record document =
  head :: "link_el list"
  next_node :: nat

definition contains :: "document \<Rightarrow> nat \<Rightarrow> bool" where
  "contains d k = (k \<in> nid ` set (head d))"

definition removeChild :: "nat \<Rightarrow> document \<Rightarrow> document" where
  "removeChild k d = d\<lparr>head := filter (\<lambda>l. nid l \<noteq> k) (head d)\<rparr>"

definition appendChild :: "link_el \<Rightarrow> document \<Rightarrow> document" where
  "appendChild l d = d\<lparr>head := filter (\<lambda>m. nid m \<noteq> nid l) (head d) @ [l]\<rparr>"

text \<open>
  \<^verbatim>\<open>typeof f === 'string' ? f : f.md\<close>, used for the preload link (on \<^verbatim>\<open>sources.avif\<close>)
  and for the \<^verbatim>\<open>src\<close> of the fallback image (on \<^verbatim>\<open>sources.jpeg\<close>).
\<close>

fun url_or_md :: "format_sources \<Rightarrow> string" where
  "url_or_md (Url u) = u"
| "url_or_md (Breakpoints b) = md b"

text \<open>
  The body of the second effect. It returns the cleanup it registers: the identity of
  the link to remove, or nothing.
\<close>

definition preload_effect :: "props \<Rightarrow> sources \<Rightarrow> document \<Rightarrow> nat option \<times> document" where
  "preload_effect p srcs d =
     (if loading_of p = Eager \<and> priority_of p = High then
        let link = \<lparr>nid = next_node d, rel = ''preload'', as_attr = ''image'',
                    href = url_or_md (avif srcs), fetchPriority = ''high''\<rparr>
        in (Some (nid link), appendChild link (d\<lparr>next_node := Suc (next_node d)\<rparr>))
      else (None, d))"

fun run_cleanup :: "nat option \<Rightarrow> document \<Rightarrow> document" where
  "run_cleanup None d = d"
| "run_cleanup (Some k) d = (if contains d k then removeChild k d else d)"

subsection \<open>The component instance\<close>

text \<open>
  What React keeps for a mounted instance: the state cells, the dependency arrays of the
  last render and the cleanup of the second effect. The \<^verbatim>\<open>sources\<close> object is created
  anew by every render; its identity is the number of the render.
\<close>

record fiber =
  cells :: load_state
  renders :: nat
  deps1 :: string
  deps2 :: "string \<times> loading_mode \<times> priority_hint \<times> nat"
  cleanup :: "nat option"

definition mount :: "env \<Rightarrow> props \<Rightarrow> document \<Rightarrow> fiber \<times> document" where
  "mount e p d =
     (let srcs = generateSources (src p);
          (c, d') = preload_effect p srcs d
      in (\<lparr>cells = timing_effect e initial_state,
           renders = 1,
           deps1 = src p,
           deps2 = (src p, loading_of p, priority_of p, 0),
           cleanup = c\<rparr>, d'))"

text \<open>
  A later render: an effect runs again when one of its dependencies differs from the
  last render's; the cleanup of the previous run comes first.
\<close>

definition update :: "env \<Rightarrow> props \<Rightarrow> fiber \<times> document \<Rightarrow> fiber \<times> document" where
  "update e p s =
     (let (i, d) = s;
          srcs = generateSources (src p);
          new1 = src p;
          new2 = (src p, loading_of p, priority_of p, renders i);
          st = (if new1 \<noteq> deps1 i then timing_effect e (cells i) else cells i);
          (c, d') = (if new2 \<noteq> deps2 i then preload_effect p srcs (run_cleanup (cleanup i) d)
                     else (cleanup i, d))
      in (\<lparr>cells = st, renders = Suc (renders i), deps1 = new1, deps2 = new2, cleanup = c\<rparr>, d'))"

definition unmount :: "fiber \<times> document \<Rightarrow> document" where
  "unmount s = (let (i, d) = s in run_cleanup (cleanup i) d)"

text \<open>Mounting, then a sequence of later renders, each with its props and clock.\<close>

definition lifetime :: "env \<times> props \<Rightarrow> (env \<times> props) list \<Rightarrow> document \<Rightarrow> fiber \<times> document" where
  "lifetime first later d =
     foldl (\<lambda>s (e, p). update e p s) (mount (fst first) (snd first) d) later"

text \<open>Every node of the head was created before \<open>next_node\<close>, and no node occurs twice.\<close>

definition wf_document :: "document \<Rightarrow> bool" where
  "wf_document d = (distinct (map nid (head d)) \<and> (\<forall>l \<in> set (head d). nid l < next_node d))"

text \<open>A load or error event of the image element, delivered to a mounted instance.\<close>

definition fire_load :: "env \<Rightarrow> props \<Rightarrow> fiber \<Rightarrow> fiber \<times> action list" where
  "fire_load e p i = (let (st, acts) = handleLoad e p (cells i) in (i\<lparr>cells := st\<rparr>, acts))"

definition fire_error :: "env \<Rightarrow> props \<Rightarrow> fiber \<Rightarrow> fiber \<times> action list" where
  "fire_error e p i = (let (st, acts) = handleError e p (cells i) in (i\<lparr>cells := st\<rparr>, acts))"

subsection \<open>Rendering\<close>

text \<open>
  The value of an attribute: a string, a call of \<^verbatim>\<open>cn\<close> with its arguments (a falsy
  argument is \<open>None\<close>), the style object, one of the two handlers, or the ref.
  \<^verbatim>\<open>cn\<close> is imported from \<^verbatim>\<open>@/lib/utils\<close> and is kept unevaluated.
\<close>

datatype attr_value =
    S string
  | Cn "string option list"
  | Css "css option"
  | HandleLoad
  | HandleError
  | ImgRef

datatype vnode =
    Elem string "(string \<times> attr_value) list" "vnode list"
  | Text string

definition blur_img :: "string \<Rightarrow> props \<Rightarrow> load_state \<Rightarrow> vnode" where
  "blur_img b p st =
     Elem ''img''
       [(''src'', S b),
        (''alt'', S []),
        (''className'', Cn
           [Some ''absolute inset-0 w-full h-full object-cover blur-sm scale-110 transition-opacity duration-300'',
            (if isLoaded st then Some ''opacity-0'' else None),
            className p])]
       []"

definition pulse_block :: "props \<Rightarrow> vnode" where
  "pulse_block p =
     Elem ''div''
       [(''className'', Cn
           [Some ''absolute inset-0 bg-gradient-to-br from-gray-100 via-gray-50 to-gray-200 animate-pulse'',
            className p])]
       []"

text \<open>
  \<^verbatim>\<open>{placeholder && !isLoaded && (<>{blurDataURL ? <img/> : <div/>}</>)}\<close>: the children
  this expression contributes to the wrapper.
\<close>

definition overlay :: "props \<Rightarrow> load_state \<Rightarrow> vnode list" where
  "overlay p st =
     (if placeholder_of p \<and> \<not> isLoaded st then
        [if truthy (blurDataURL p)
         then blur_img (case blurDataURL p of Some b \<Rightarrow> b | None \<Rightarrow> []) p st
         else pulse_block p]
      else [])"

definition picture :: "props \<Rightarrow> load_state \<Rightarrow> vnode" where
  "picture p st =
     (let sources = generateSources (src p) in
      Elem ''picture'' []
        [Elem ''source''
           [(''srcSet'', S (generateSrcSet (avif sources))),
            (''sizes'', S (sizes_of p)),
            (''type'', S ''image/avif'')] [],
         Elem ''source''
           [(''srcSet'', S (generateSrcSet (webp sources))),
            (''sizes'', S (sizes_of p)),
            (''type'', S ''image/webp'')] [],
         Elem ''img''
           [(''ref'', ImgRef),
            (''src'', S (url_or_md (jpeg sources))),
            (''srcSet'', S (generateSrcSet (jpeg sources))),
            (''sizes'', S (sizes_of p)),
            (''alt'', S (alt p)),
            (''loading'', S (loading_str (loading_of p))),
            (''decoding'', S ''async''),
            (''fetchPriority'', S (priority_str (priority_of p))),
            (''className'', Cn
               [Some ''transition-opacity duration-500 ease-out'',
                Some (if isLoaded st then ''opacity-100'' else ''opacity-0''),
                className p]),
            (''onLoad'', HandleLoad),
            (''onError'', HandleError)] []])"

definition error_box :: "props \<Rightarrow> vnode" where
  "error_box p =
     Elem ''div''
       [(''className'', Cn
           [Some ''bg-gradient-to-br from-gray-100 to-gray-200 flex items-center justify-center text-gray-400 text-sm'',
            className p]),
        (''style'', Css (style p))]
       [Text ''Failed to load'']"

definition render :: "props \<Rightarrow> load_state \<Rightarrow> vnode" where
  "render p st =
     (if hasError st then error_box p
      else
        Elem ''div''
          [(''className'', S ''relative overflow-hidden''), (''style'', Css (style p))]
          (overlay p st @ [picture p st]))"

text \<open>All nodes of a tree, the root first.\<close>

fun subnodes :: "vnode \<Rightarrow> vnode list" where
  "subnodes (Text t) = [Text t]"
| "subnodes (Elem t a cs) = Elem t a cs # concat (map subnodes cs)"

subsection \<open>The invariant of the preload effect\<close>

text \<open>The link that the second effect creates for props \<open>p\<close>, with identity \<open>k\<close>.\<close>

definition hint :: "nat \<Rightarrow> props \<Rightarrow> link_el" where
  "hint k p =
     \<lparr>nid = k, rel = ''preload'', as_attr = ''image'',
      href = url_or_md (avif (generateSources (src p))), fetchPriority = ''high''\<rparr>"

text \<open>
  After a render with props \<open>p\<close> of an instance mounted into the document \<open>d0\<close>: the head
  is that of \<open>d0\<close>, followed by the one link of this render when \<open>p\<close> asks for it, and the
  registered cleanup removes exactly that link. The \<^verbatim>\<open>sources\<close> object recorded in the
  dependencies is older than the one the next render will create.
\<close>

definition hint_inv :: "document \<Rightarrow> props \<Rightarrow> fiber \<times> document \<Rightarrow> bool" where
  "hint_inv d0 p s =
     (let (i, d) = s in
      next_node d0 \<le> next_node d \<and> snd (snd (snd (deps2 i))) < renders i \<and>
      (if loading_of p = Eager \<and> priority_of p = High
       then \<exists>k. cleanup i = Some k \<and> next_node d0 \<le> k \<and> k < next_node d \<and>
                head d = head d0 @ [hint k p]
       else cleanup i = None \<and> head d = head d0))"

subsection \<open>Example inputs\<close>

text \<open>Props with only \<^verbatim>\<open>src\<close> and \<^verbatim>\<open>alt\<close> passed, an empty head, and a production clock.\<close>

definition demo_props :: "string \<Rightarrow> props" where
  "demo_props s =
     \<lparr>src = s, alt = ''photo'', className = None, loading = None, priority = None,
      sizes = None, onLoad = None, onError = None, style = None, placeholder = None,
      blurDataURL = None\<rparr>"

definition empty_document :: document where
  "empty_document = \<lparr>head = [], next_node = 0\<rparr>"

definition clock :: "real \<Rightarrow> env" where
  "clock t = \<lparr>now = t, node_env = ''production''\<rparr>"

section \<open>Properties of the source-set builder\<close>

lemma canonicalize_literals:
  "map canonicalize ''.jpg'' = ''.JPG''"
  "map canonicalize ''.jpeg'' = ''.JPEG''"
  "map canonicalize ''.png'' = ''.PNG''"
  by (simp_all add: canonicalize_def)

lemma raster_ext_here_iff:
  "raster_ext_here s \<longleftrightarrow> map canonicalize s \<in> {''.JPG'', ''.JPEG'', ''.PNG''}"
  unfolding raster_ext_here_def matches_ci_def canonicalize_literals by blast

lemma raster_ext_here_length: "raster_ext_here s \<Longrightarrow> length s = 4 \<or> length s = 5"
  by (auto simp: raster_ext_here_iff dest: arg_cong [where f = length])

text \<open>The regular expression cannot match at two positions of one input.\<close>

lemma raster_ext_here_unique:
  assumes "raster_ext_here e"
  shows "\<not> raster_ext_here (c # cs @ e)"
proof
  assume longer: "raster_ext_here (c # cs @ e)"
  from assms have "length e = 4 \<or> length e = 5"
    by (rule raster_ext_here_length)
  moreover from longer have "length (c # cs @ e) = 4 \<or> length (c # cs @ e) = 5"
    by (rule raster_ext_here_length)
  ultimately have cs: "cs = []" and len: "length e = 4"
    by auto
  from longer cs len have "map canonicalize (c # e) = ''.JPEG''"
    by (auto simp: raster_ext_here_iff dest: arg_cong [where f = length])
  then have "map canonicalize e = ''JPEG''"
    by simp
  with assms show False
    by (simp add: raster_ext_here_iff)
qed

lemma replace_raster_ext_strips:
  "raster_ext_here e \<Longrightarrow> replace_raster_ext (stem @ e) = stem"
proof (induction stem)
  case Nil
  then show ?case by (cases e) simp_all
next
  case (Cons c stem)
  then show ?case by (simp add: raster_ext_here_unique)
qed

lemma replace_raster_ext_no_match:
  "(\<And>stem e. s = stem @ e \<Longrightarrow> \<not> raster_ext_here e) \<Longrightarrow> replace_raster_ext s = s"
proof (induction s)
  case Nil
  show ?case by simp
next
  case (Cons a s)
  have "\<not> raster_ext_here (a # s)"
    using Cons.prems [of "[]" "a # s"] by simp
  moreover have "replace_raster_ext s = s"
  proof (rule Cons.IH)
    fix stem e
    assume "s = stem @ e"
    then show "\<not> raster_ext_here e"
      using Cons.prems [of "a # stem" e] by simp
  qed
  ultimately show ?case by simp
qed

lemma ends_with_ci_iff:
  "ends_with_ci s l \<longleftrightarrow> (\<exists>stem e. s = stem @ e \<and> matches_ci l e)"
proof
  assume "ends_with_ci s l"
  then have "s = take (length s - length l) s @ drop (length s - length l) s \<and>
      matches_ci l (drop (length s - length l) s)"
    by (simp add: ends_with_ci_def matches_ci_def)
  then show "\<exists>stem e. s = stem @ e \<and> matches_ci l e"
    by blast
next
  assume "\<exists>stem e. s = stem @ e \<and> matches_ci l e"
  then obtain stem e where s: "s = stem @ e" and m: "matches_ci l e"
    by blast
  from m have "length e = length l"
    unfolding matches_ci_def by (metis length_map)
  with s m show "ends_with_ci s l"
    by (simp add: ends_with_ci_def matches_ci_def)
qed

text \<open>
  The string ends in one of the three extensions exactly when the regular expression
  matches somewhere in it.
\<close>

lemma ends_in_raster_ext_iff:
  "ends_in_raster_ext s \<longleftrightarrow> (\<exists>stem e. s = stem @ e \<and> raster_ext_here e)"
  unfolding ends_in_raster_ext_def raster_ext_here_def ends_with_ci_iff by blast

lemma generateSources_breakpoints:
  "startsWith baseSrc ''/Collection/'' \<Longrightarrow> replace_raster_ext baseSrc = basePath \<Longrightarrow>
   generateSources baseSrc =
     \<lparr>avif = Breakpoints
        \<lparr>xs = basePath @ ''-xs.avif'', sm = basePath @ ''-sm.avif'', md = basePath @ ''-md.avif'',
         lg = basePath @ ''-lg.avif'', xl = basePath @ ''-xl.avif'',
         original = basePath @ ''.avif''\<rparr>,
      webp = Breakpoints
        \<lparr>xs = basePath @ ''-xs.webp'', sm = basePath @ ''-sm.webp'', md = basePath @ ''-md.webp'',
         lg = basePath @ ''-lg.webp'', xl = basePath @ ''-xl.webp'',
         original = basePath @ ''.webp''\<rparr>,
      jpeg = Breakpoints
        \<lparr>xs = basePath @ ''-xs.jpg'', sm = basePath @ ''-sm.jpg'', md = basePath @ ''-md.jpg'',
         lg = basePath @ ''-lg.jpg'', xl = basePath @ ''-xl.jpg'',
         original = baseSrc\<rparr>\<rparr>"
  by (simp add: generateSources_def Let_def)

text \<open>
  C4. A base URL that does not start with \<^verbatim>\<open>/Collection/\<close> is passed through: each of
  the three formats is the input URL itself, as a single string.
\<close>

theorem generateSources_passthrough:
  "\<not> startsWith baseSrc ''/Collection/'' \<Longrightarrow>
   generateSources baseSrc = \<lparr>avif = Url baseSrc, webp = Url baseSrc, jpeg = Url baseSrc\<rparr>"
  by (simp add: generateSources_def)

theorem generateSources_passthrough_witness:
  "\<not> startsWith ''https://cdn.example.com/a.jpg'' ''/Collection/'' \<and>
   generateSources ''https://cdn.example.com/a.jpg'' =
     \<lparr>avif = Url ''https://cdn.example.com/a.jpg'',
      webp = Url ''https://cdn.example.com/a.jpg'',
      jpeg = Url ''https://cdn.example.com/a.jpg''\<rparr>"
  using generateSources_passthrough [of "''https://cdn.example.com/a.jpg''"]
  by (simp add: startsWith_def)

text \<open>
  C5. A base URL under \<^verbatim>\<open>/Collection/\<close> that is a stem followed by \<^verbatim>\<open>.jpg\<close>, \<^verbatim>\<open>.jpeg\<close> or
  \<^verbatim>\<open>.png\<close> in any mix of cases yields, for each format, the five width-tagged variants
  and the "original" built on the stem; the jpeg "original" is the input URL itself.
  For \<^verbatim>\<open>/Collection/photo.jpg\<close> the avif "md" variant is \<^verbatim>\<open>/Collection/photo-md.avif\<close>.
\<close>

theorem generateSources_raster:
  "(startsWith baseSrc ''/Collection/'' \<and> baseSrc = stem @ ext \<and>
    (matches_ci ''.jpg'' ext \<or> matches_ci ''.jpeg'' ext \<or> matches_ci ''.png'' ext) \<longrightarrow>
    generateSources baseSrc =
      \<lparr>avif = Breakpoints
         \<lparr>xs = stem @ ''-xs.avif'', sm = stem @ ''-sm.avif'', md = stem @ ''-md.avif'',
          lg = stem @ ''-lg.avif'', xl = stem @ ''-xl.avif'', original = stem @ ''.avif''\<rparr>,
       webp = Breakpoints
         \<lparr>xs = stem @ ''-xs.webp'', sm = stem @ ''-sm.webp'', md = stem @ ''-md.webp'',
          lg = stem @ ''-lg.webp'', xl = stem @ ''-xl.webp'', original = stem @ ''.webp''\<rparr>,
       jpeg = Breakpoints
         \<lparr>xs = stem @ ''-xs.jpg'', sm = stem @ ''-sm.jpg'', md = stem @ ''-md.jpg'',
          lg = stem @ ''-lg.jpg'', xl = stem @ ''-xl.jpg'', original = baseSrc\<rparr>\<rparr>) \<and>
   (\<exists>b. avif (generateSources ''/Collection/photo.jpg'') = Breakpoints b \<and>
        md b = ''/Collection/photo-md.avif'')"
proof (intro conjI impI)
  assume a: "startsWith baseSrc ''/Collection/'' \<and> baseSrc = stem @ ext \<and>
    (matches_ci ''.jpg'' ext \<or> matches_ci ''.jpeg'' ext \<or> matches_ci ''.png'' ext)"
  then have "raster_ext_here ext"
    by (simp add: raster_ext_here_def)
  then have "replace_raster_ext (stem @ ext) = stem"
    by (rule replace_raster_ext_strips)
  moreover from a have "baseSrc = stem @ ext"
    by blast
  ultimately have r: "replace_raster_ext baseSrc = stem"
    by simp
  from a have s: "startsWith baseSrc ''/Collection/''"
    by (rule conjunct1)
  show "generateSources baseSrc =
      \<lparr>avif = Breakpoints
         \<lparr>xs = stem @ ''-xs.avif'', sm = stem @ ''-sm.avif'', md = stem @ ''-md.avif'',
          lg = stem @ ''-lg.avif'', xl = stem @ ''-xl.avif'', original = stem @ ''.avif''\<rparr>,
       webp = Breakpoints
         \<lparr>xs = stem @ ''-xs.webp'', sm = stem @ ''-sm.webp'', md = stem @ ''-md.webp'',
          lg = stem @ ''-lg.webp'', xl = stem @ ''-xl.webp'', original = stem @ ''.webp''\<rparr>,
       jpeg = Breakpoints
         \<lparr>xs = stem @ ''-xs.jpg'', sm = stem @ ''-sm.jpg'', md = stem @ ''-md.jpg'',
          lg = stem @ ''-lg.jpg'', xl = stem @ ''-xl.jpg'', original = baseSrc\<rparr>\<rparr>"
    by (rule generateSources_breakpoints [OF s r])
next
  have m: "raster_ext_here ''.jpg''"
    by (simp add: raster_ext_here_def matches_ci_def)
  have "replace_raster_ext (''/Collection/photo'' @ ''.jpg'') = ''/Collection/photo''"
    using m by (rule replace_raster_ext_strips)
  then have "replace_raster_ext ''/Collection/photo.jpg'' = ''/Collection/photo''"
    by simp
  moreover have "startsWith ''/Collection/photo.jpg'' ''/Collection/''"
    by (simp add: startsWith_def)
  ultimately show "\<exists>b. avif (generateSources ''/Collection/photo.jpg'') = Breakpoints b \<and>
        md b = ''/Collection/photo-md.avif''"
    by (simp add: generateSources_breakpoints)
qed

theorem generateSources_raster_witness:
  "startsWith ''/Collection/shirts/Red.JPeG'' ''/Collection/'' \<and>
   ''/Collection/shirts/Red.JPeG'' = ''/Collection/shirts/Red'' @ ''.JPeG'' \<and>
   matches_ci ''.jpeg'' ''.JPeG'' \<and>
   jpeg (generateSources ''/Collection/shirts/Red.JPeG'') =
     Breakpoints
       \<lparr>xs = ''/Collection/shirts/Red-xs.jpg'', sm = ''/Collection/shirts/Red-sm.jpg'',
        md = ''/Collection/shirts/Red-md.jpg'', lg = ''/Collection/shirts/Red-lg.jpg'',
        xl = ''/Collection/shirts/Red-xl.jpg'', original = ''/Collection/shirts/Red.JPeG''\<rparr>"
proof -
  have p: "startsWith ''/Collection/shirts/Red.JPeG'' ''/Collection/''"
    by (simp add: startsWith_def)
  have m: "matches_ci ''.jpeg'' ''.JPeG''"
    by (simp add: matches_ci_def canonicalize_def)
  show ?thesis
    using p m
      generateSources_raster [of "''/Collection/shirts/Red.JPeG''" "''/Collection/shirts/Red''" "''.JPeG''"]
    by simp
qed

text \<open>
  C6. The serializer returns a single URL as it is; for the object of six variants it
  joins, with a comma and a space, exactly six entries, each a URL, a space and a width
  token, the tokens being 300w, 400w, 600w, 800w, 1200w, 1600w for xs, sm, md, lg, xl,
  original in this order, whatever the URLs are.
\<close>

theorem generateSrcSet_contract:
  "generateSrcSet (Url u) = u \<and>
   length (srcset_entries f) = 6 \<and>
   map (\<lambda>(url, entry). drop (length url) entry)
       (zip [xs f, sm f, md f, lg f, xl f, original f] (srcset_entries f)) =
     ['' 300w'', '' 400w'', '' 600w'', '' 800w'', '' 1200w'', '' 1600w''] \<and>
   generateSrcSet (Breakpoints f) =
     xs f @ '' 300w, '' @ sm f @ '' 400w, '' @ md f @ '' 600w, '' @ lg f @ '' 800w, '' @
     xl f @ '' 1200w, '' @ original f @ '' 1600w''"
  by (simp add: srcset_entries_def)

text \<open>
  C10. A base URL under \<^verbatim>\<open>/Collection/\<close> that does not end in \<^verbatim>\<open>.jpg\<close>, \<^verbatim>\<open>.jpeg\<close> or
  \<^verbatim>\<open>.png\<close> (in any mix of cases) is not passed through: it yields the six variants per
  format with the whole URL, extension included, as the base path. For
  \<^verbatim>\<open>/Collection/photo.webp\<close> the avif "md" variant is \<^verbatim>\<open>/Collection/photo.webp-md.avif\<close>
  and the jpeg "original" is \<^verbatim>\<open>/Collection/photo.webp\<close>.
\<close>

theorem generateSources_other_extension:
  "(startsWith baseSrc ''/Collection/'' \<and> \<not> ends_in_raster_ext baseSrc \<longrightarrow>
    generateSources baseSrc =
      \<lparr>avif = Breakpoints
         \<lparr>xs = baseSrc @ ''-xs.avif'', sm = baseSrc @ ''-sm.avif'', md = baseSrc @ ''-md.avif'',
          lg = baseSrc @ ''-lg.avif'', xl = baseSrc @ ''-xl.avif'',
          original = baseSrc @ ''.avif''\<rparr>,
       webp = Breakpoints
         \<lparr>xs = baseSrc @ ''-xs.webp'', sm = baseSrc @ ''-sm.webp'', md = baseSrc @ ''-md.webp'',
          lg = baseSrc @ ''-lg.webp'', xl = baseSrc @ ''-xl.webp'',
          original = baseSrc @ ''.webp''\<rparr>,
       jpeg = Breakpoints
         \<lparr>xs = baseSrc @ ''-xs.jpg'', sm = baseSrc @ ''-sm.jpg'', md = baseSrc @ ''-md.jpg'',
          lg = baseSrc @ ''-lg.jpg'', xl = baseSrc @ ''-xl.jpg'',
          original = baseSrc\<rparr>\<rparr>) \<and>
   (\<exists>a j. avif (generateSources ''/Collection/photo.webp'') = Breakpoints a \<and>
          md a = ''/Collection/photo.webp-md.avif'' \<and>
          jpeg (generateSources ''/Collection/photo.webp'') = Breakpoints j \<and>
          original j = ''/Collection/photo.webp'')"
proof (intro conjI impI)
  assume a: "startsWith baseSrc ''/Collection/'' \<and> \<not> ends_in_raster_ext baseSrc"
  then have "\<And>stem e. baseSrc = stem @ e \<Longrightarrow> \<not> raster_ext_here e"
    by (auto simp: ends_in_raster_ext_iff)
  then have r: "replace_raster_ext baseSrc = baseSrc"
    by (rule replace_raster_ext_no_match)
  from a have s: "startsWith baseSrc ''/Collection/''"
    by (rule conjunct1)
  show "generateSources baseSrc =
      \<lparr>avif = Breakpoints
         \<lparr>xs = baseSrc @ ''-xs.avif'', sm = baseSrc @ ''-sm.avif'', md = baseSrc @ ''-md.avif'',
          lg = baseSrc @ ''-lg.avif'', xl = baseSrc @ ''-xl.avif'',
          original = baseSrc @ ''.avif''\<rparr>,
       webp = Breakpoints
         \<lparr>xs = baseSrc @ ''-xs.webp'', sm = baseSrc @ ''-sm.webp'', md = baseSrc @ ''-md.webp'',
          lg = baseSrc @ ''-lg.webp'', xl = baseSrc @ ''-xl.webp'',
          original = baseSrc @ ''.webp''\<rparr>,
       jpeg = Breakpoints
         \<lparr>xs = baseSrc @ ''-xs.jpg'', sm = baseSrc @ ''-sm.jpg'', md = baseSrc @ ''-md.jpg'',
          lg = baseSrc @ ''-lg.jpg'', xl = baseSrc @ ''-xl.jpg'',
          original = baseSrc\<rparr>\<rparr>"
    by (rule generateSources_breakpoints [OF s r])
next
  have "\<not> ends_in_raster_ext ''/Collection/photo.webp''"
    by (simp add: ends_in_raster_ext_def ends_with_ci_def canonicalize_def)
  then have "\<And>stem e. ''/Collection/photo.webp'' = stem @ e \<Longrightarrow> \<not> raster_ext_here e"
    unfolding ends_in_raster_ext_iff by blast
  then have "replace_raster_ext ''/Collection/photo.webp'' = ''/Collection/photo.webp''"
    by (rule replace_raster_ext_no_match)
  moreover have "startsWith ''/Collection/photo.webp'' ''/Collection/''"
    by (simp add: startsWith_def)
  ultimately show "\<exists>a j. avif (generateSources ''/Collection/photo.webp'') = Breakpoints a \<and>
          md a = ''/Collection/photo.webp-md.avif'' \<and>
          jpeg (generateSources ''/Collection/photo.webp'') = Breakpoints j \<and>
          original j = ''/Collection/photo.webp''"
    by (simp add: generateSources_breakpoints)
qed

theorem generateSources_other_extension_witness:
  "startsWith ''/Collection/hero'' ''/Collection/'' \<and>
   \<not> ends_in_raster_ext ''/Collection/hero'' \<and>
   webp (generateSources ''/Collection/hero'') =
     Breakpoints
       \<lparr>xs = ''/Collection/hero-xs.webp'', sm = ''/Collection/hero-sm.webp'',
        md = ''/Collection/hero-md.webp'', lg = ''/Collection/hero-lg.webp'',
        xl = ''/Collection/hero-xl.webp'', original = ''/Collection/hero.webp''\<rparr>"
proof -
  have p: "startsWith ''/Collection/hero'' ''/Collection/''"
    by (simp add: startsWith_def)
  have n: "\<not> ends_in_raster_ext ''/Collection/hero''"
    by (simp add: ends_in_raster_ext_def ends_with_ci_def canonicalize_def)
  show ?thesis
    using p n generateSources_other_extension [of "''/Collection/hero''"]
    by simp
qed

section \<open>Properties of the load state\<close>

lemma now_clock: "now (clock t) = t"
  by (simp add: clock_def)

lemma deps1_mount: "deps1 (fst (mount e p d)) = src p"
  by (simp add: mount_def Let_def split: prod.splits)

lemma deps1_update: "deps1 (fst (update e p s)) = src p"
  by (simp add: update_def Let_def split: prod.splits)

lemma cells_update:
  "cells (fst (update e p (i, d))) =
     (if src p \<noteq> deps1 i then (cells i)\<lparr>loadStartTime := now e\<rparr> else cells i)"
  by (simp add: update_def timing_effect_def Let_def split: prod.splits)

text \<open>
  C1, as the code has it. The dependency recorded by a render is its \<^verbatim>\<open>src\<close>. A render
  whose \<^verbatim>\<open>src\<close> differs from the previous one sets \<open>loadStartTime\<close> to the current time
  and leaves \<open>isLoaded\<close> and \<open>hasError\<close> as they were.
\<close>

theorem src_change_restarts_timing_only:
  "deps1 (fst (mount e q d0)) = src q \<and>
   deps1 (fst (update e q s)) = src q \<and>
   (src p \<noteq> deps1 i \<longrightarrow>
      loadStartTime (cells (fst (update e p (i, d)))) = now e \<and>
      isLoaded (cells (fst (update e p (i, d)))) = isLoaded (cells i) \<and>
      hasError (cells (fst (update e p (i, d)))) = hasError (cells i))"
  by (simp add: deps1_mount deps1_update cells_update)

theorem src_change_restarts_timing_only_witness:
  "src (demo_props ''/b.jpg'') \<noteq> deps1 (fst (mount (clock 5) (demo_props ''/a.jpg'') empty_document)) \<and>
   loadStartTime (cells (fst (update (clock 9) (demo_props ''/b.jpg'')
      (mount (clock 5) (demo_props ''/a.jpg'') empty_document)))) = 9 \<and>
   \<not> hasError (cells (fst (update (clock 9) (demo_props ''/b.jpg'')
      (mount (clock 5) (demo_props ''/a.jpg'') empty_document))))"
proof -
  obtain i d where m: "mount (clock 5) (demo_props ''/a.jpg'') empty_document = (i, d)"
    by (cases "mount (clock 5) (demo_props ''/a.jpg'') empty_document")
  then have i: "deps1 i = ''/a.jpg''" "hasError (cells i) = False"
    by (auto simp: mount_def Let_def demo_props_def timing_effect_def initial_state_def
        split: prod.splits)
  have ne: "src (demo_props ''/b.jpg'') \<noteq> deps1 i"
    by (simp add: i demo_props_def)
  show ?thesis
    using ne i
      src_change_restarts_timing_only [of "clock 9" "demo_props ''/b.jpg''" d "(i, d)" "demo_props ''/b.jpg''" i d]
    by (simp add: m now_clock)
qed

text \<open>
  C1, as the claim states it, fails: mount with \<^verbatim>\<open>/a.jpg\<close>, let the load fail, then render
  with \<^verbatim>\<open>/b.jpg\<close> at time 9. The state is not \<open>{false, false, 9}\<close>: \<open>hasError\<close> is still
  true.
\<close>

theorem src_change_reset_counterexample:
  "\<not> (isLoaded (cells (fst (update (clock 9) (demo_props ''/b.jpg'')
          (fst (fire_error (clock 7) (demo_props ''/a.jpg'')
                 (fst (mount (clock 5) (demo_props ''/a.jpg'') empty_document))),
           snd (mount (clock 5) (demo_props ''/a.jpg'') empty_document))))) = False \<and>
       hasError (cells (fst (update (clock 9) (demo_props ''/b.jpg'')
          (fst (fire_error (clock 7) (demo_props ''/a.jpg'')
                 (fst (mount (clock 5) (demo_props ''/a.jpg'') empty_document))),
           snd (mount (clock 5) (demo_props ''/a.jpg'') empty_document))))) = False \<and>
       loadStartTime (cells (fst (update (clock 9) (demo_props ''/b.jpg'')
          (fst (fire_error (clock 7) (demo_props ''/a.jpg'')
                 (fst (mount (clock 5) (demo_props ''/a.jpg'') empty_document))),
           snd (mount (clock 5) (demo_props ''/a.jpg'') empty_document))))) = 9)"
  by (simp add: cells_update fire_error_def handleError_def mount_def Let_def
      split: prod.splits)

text \<open>
  C9. The error handler sets \<open>hasError\<close> and nothing else in the state; it calls
  \<open>onError\<close> once when the caller passed one and not at all otherwise; it then warns on
  the console with the source URL, whatever the build mode is. Nothing is fetched again:
  the next render is the error box, which has no image element.
\<close>

theorem handleError_contract:
  "fst (handleError e p st) = st\<lparr>hasError := True\<rparr> \<and>
   snd (handleError e p st) =
     (case onError p of None \<Rightarrow> [] | Some f \<Rightarrow> [Invoke f]) @
     [ConsoleWarn ''Advanced image failed to load:'' (src p)] \<and>
   subnodes (render p (fst (handleError e p st))) =
     [Elem ''div''
        [(''className'', Cn
            [Some ''bg-gradient-to-br from-gray-100 to-gray-200 flex items-center justify-center text-gray-400 text-sm'',
             className p]),
         (''style'', Css (style p))]
        [Text ''Failed to load''],
      Text ''Failed to load'']"
  by (cases "onError p") (simp_all add: handleError_def render_def error_box_def)

section \<open>Properties of rendering\<close>

text \<open>
  C3. Whenever \<open>hasError\<close> is set, whatever \<open>isLoaded\<close> is, the component renders the
  error box with the text \<^verbatim>\<open>Failed to load\<close> and nothing else.
\<close>

theorem error_state_renders_error_box_only:
  "hasError st \<Longrightarrow>
   render p st =
     Elem ''div''
       [(''className'', Cn
           [Some ''bg-gradient-to-br from-gray-100 to-gray-200 flex items-center justify-center text-gray-400 text-sm'',
            className p]),
        (''style'', Css (style p))]
       [Text ''Failed to load''] \<and>
   subnodes (render p st) = [render p st, Text ''Failed to load'']"
  by (simp add: render_def error_box_def)

theorem error_state_renders_error_box_only_witness:
  "hasError \<lparr>isLoaded = True, hasError = True, loadStartTime = 5\<rparr> \<and>
   render (demo_props ''/Collection/photo.jpg'')
       \<lparr>isLoaded = True, hasError = True, loadStartTime = 5\<rparr> =
     Elem ''div''
       [(''className'', Cn
           [Some ''bg-gradient-to-br from-gray-100 to-gray-200 flex items-center justify-center text-gray-400 text-sm'',
            None]),
        (''style'', Css None)]
       [Text ''Failed to load'']"
  using error_state_renders_error_box_only
    [of "\<lparr>isLoaded = True, hasError = True, loadStartTime = 5\<rparr>"
        "demo_props ''/Collection/photo.jpg''"]
  by (simp add: demo_props_def)

lemma subnodes_picture:
  "set (subnodes (picture p st)) \<subseteq>
     {n. \<exists>a cs. n = Elem ''picture'' a cs \<or> n = Elem ''source'' a cs \<or>
           (n = Elem ''img'' a cs \<and> fst (hd a) = ''ref'')}"
  by (auto simp: picture_def Let_def)

lemma overlay_not_in_picture:
  "blur_img b p st' \<notin> set (subnodes (picture p st))"
  "pulse_block p \<notin> set (subnodes (picture p st))"
  using subnodes_picture [of p st] by (auto simp: blur_img_def pulse_block_def)

text \<open>
  C8. With \<^verbatim>\<open>placeholder={false}\<close> the overlay expression contributes no child; without an
  error the wrapper has the picture as its only child; and in every load state neither
  the blurred image nor the pulsing block occurs anywhere in the rendered tree.
\<close>

theorem no_placeholder_no_overlay:
  "placeholder p = Some False \<Longrightarrow>
   overlay p st = [] \<and>
   (\<not> hasError st \<longrightarrow>
      render p st =
        Elem ''div''
          [(''className'', S ''relative overflow-hidden''), (''style'', Css (style p))]
          [picture p st]) \<and>
   blur_img b p st' \<notin> set (subnodes (render p st)) \<and>
   pulse_block p \<notin> set (subnodes (render p st))"
  by (simp add: overlay_def placeholder_of_def render_def overlay_not_in_picture)
    (simp add: error_box_def blur_img_def pulse_block_def)

theorem no_placeholder_no_overlay_witness:
  "placeholder ((demo_props ''/a.jpg'')\<lparr>placeholder := Some False\<rparr>) = Some False \<and>
   \<not> hasError \<lparr>isLoaded = False, hasError = False, loadStartTime = 5\<rparr> \<and>
   render ((demo_props ''/a.jpg'')\<lparr>placeholder := Some False\<rparr>)
       \<lparr>isLoaded = False, hasError = False, loadStartTime = 5\<rparr> =
     Elem ''div''
       [(''className'', S ''relative overflow-hidden''), (''style'', Css None)]
       [picture ((demo_props ''/a.jpg'')\<lparr>placeholder := Some False\<rparr>)
          \<lparr>isLoaded = False, hasError = False, loadStartTime = 5\<rparr>]"
  using no_placeholder_no_overlay
    [of "(demo_props ''/a.jpg'')\<lparr>placeholder := Some False\<rparr>"
        "\<lparr>isLoaded = False, hasError = False, loadStartTime = 5\<rparr>"]
  by (simp add: demo_props_def)

text \<open>
  C2, as the code has it. With the placeholder enabled and no error, the overlay is a
  child of the wrapper, next to the picture, while \<open>isLoaded\<close> is false. Once \<open>isLoaded\<close> is
  true the pulsing block (the overlay when no usable \<^verbatim>\<open>blurDataURL\<close> was passed) is no
  longer in the tree: the picture is the only child.
\<close>

theorem overlay_mounted_while_loading:
  "placeholder_of p \<Longrightarrow> \<not> hasError st \<Longrightarrow>
   (\<not> isLoaded st \<longrightarrow>
      render p st =
        Elem ''div''
          [(''className'', S ''relative overflow-hidden''), (''style'', Css (style p))]
          [if truthy (blurDataURL p)
           then blur_img (case blurDataURL p of Some b \<Rightarrow> b | None \<Rightarrow> []) p st
           else pulse_block p,
           picture p st]) \<and>
   (isLoaded st \<and> \<not> truthy (blurDataURL p) \<longrightarrow>
      render p st =
        Elem ''div''
          [(''className'', S ''relative overflow-hidden''), (''style'', Css (style p))]
          [picture p st])"
  by (simp add: render_def overlay_def)

theorem overlay_mounted_while_loading_witness:
  "placeholder_of (demo_props ''/a.jpg'') \<and>
   \<not> hasError \<lparr>isLoaded = False, hasError = False, loadStartTime = 5\<rparr> \<and>
   \<not> isLoaded \<lparr>isLoaded = False, hasError = False, loadStartTime = 5\<rparr> \<and>
   render (demo_props ''/a.jpg'') \<lparr>isLoaded = False, hasError = False, loadStartTime = 5\<rparr> =
     Elem ''div''
       [(''className'', S ''relative overflow-hidden''), (''style'', Css None)]
       [pulse_block (demo_props ''/a.jpg''),
        picture (demo_props ''/a.jpg'') \<lparr>isLoaded = False, hasError = False, loadStartTime = 5\<rparr>] \<and>
   \<not> hasError \<lparr>isLoaded = True, hasError = False, loadStartTime = 5\<rparr> \<and>
   isLoaded \<lparr>isLoaded = True, hasError = False, loadStartTime = 5\<rparr> \<and>
   \<not> truthy (blurDataURL (demo_props ''/a.jpg'')) \<and>
   render (demo_props ''/a.jpg'') \<lparr>isLoaded = True, hasError = False, loadStartTime = 5\<rparr> =
     Elem ''div''
       [(''className'', S ''relative overflow-hidden''), (''style'', Css None)]
       [picture (demo_props ''/a.jpg'') \<lparr>isLoaded = True, hasError = False, loadStartTime = 5\<rparr>]"
proof -
  have on: "placeholder_of (demo_props ''/a.jpg'')"
    by (simp add: placeholder_of_def demo_props_def)
  show ?thesis
    using on
      overlay_mounted_while_loading [OF on,
        of "\<lparr>isLoaded = False, hasError = False, loadStartTime = 5\<rparr>"]
      overlay_mounted_while_loading [OF on,
        of "\<lparr>isLoaded = True, hasError = False, loadStartTime = 5\<rparr>"]
    by (simp add: demo_props_def)
qed

text \<open>
  C2, as the claim states it, fails: with the placeholder enabled the pulsing block is in
  the tree while loading, and it is not in the tree once \<open>isLoaded\<close> is true.
\<close>

theorem overlay_removed_counterexample:
  "pulse_block (demo_props ''/a.jpg'') \<in>
     set (subnodes (render (demo_props ''/a.jpg'')
       \<lparr>isLoaded = False, hasError = False, loadStartTime = 5\<rparr>)) \<and>
   pulse_block (demo_props ''/a.jpg'') \<notin>
     set (subnodes (render (demo_props ''/a.jpg'')
       \<lparr>isLoaded = True, hasError = False, loadStartTime = 5\<rparr>))"
  by (simp add: render_def overlay_def placeholder_of_def demo_props_def
      overlay_not_in_picture)
    (simp add: pulse_block_def)

section \<open>Properties of the preload hint\<close>

lemma filter_fresh_node:
  "wf_document d \<Longrightarrow> filter (\<lambda>m. nid m \<noteq> next_node d) (head d) = head d"
  by (rule filter_True) (auto simp: wf_document_def)

lemma preload_effect_on:
  assumes "wf_document d" and "loading_of p = Eager" and "priority_of p = High"
  shows "preload_effect p (generateSources (src p)) d =
    (Some (next_node d),
     \<lparr>head = head d @ [hint (next_node d) p], next_node = Suc (next_node d)\<rparr>)"
  using assms(2,3) filter_fresh_node [OF assms(1)]
  by (simp add: preload_effect_def appendChild_def hint_def Let_def)

lemma preload_effect_off:
  "\<not> (loading_of p = Eager \<and> priority_of p = High) \<Longrightarrow> preload_effect p srcs d = (None, d)"
  by (simp add: preload_effect_def)

lemma run_cleanup_last:
  assumes "k \<notin> nid ` set h"
  shows "run_cleanup (Some k) \<lparr>head = h @ [l\<lparr>nid := k\<rparr>], next_node = n\<rparr> =
    \<lparr>head = h, next_node = n\<rparr>"
proof -
  have "filter (\<lambda>l. nid l \<noteq> k) h = h"
    using assms by (intro filter_True) auto
  then show ?thesis
    by (simp add: contains_def removeChild_def)
qed

lemma wf_document_grow:
  "wf_document d0 \<Longrightarrow> next_node d0 \<le> n \<Longrightarrow> wf_document \<lparr>head = head d0, next_node = n\<rparr>"
  by (fastforce simp: wf_document_def)

lemma hint_inv_mount:
  assumes "wf_document d0"
  shows "hint_inv d0 p (mount e p d0)"
proof (cases "loading_of p = Eager \<and> priority_of p = High")
  case True
  then show ?thesis
    using preload_effect_on [OF assms, of p]
    by (simp add: hint_inv_def mount_def Let_def)
next
  case False
  then show ?thesis
    using preload_effect_off [of p "generateSources (src p)" d0]
    by (simp add: hint_inv_def mount_def Let_def)
qed

text \<open>The registered cleanup takes the head back to that of the initial document.\<close>

lemma hint_inv_cleanup:
  assumes "wf_document d0" and "hint_inv d0 q (i, d)"
  shows "run_cleanup (cleanup i) d = \<lparr>head = head d0, next_node = next_node d\<rparr>"
proof (cases "loading_of q = Eager \<and> priority_of q = High")
  case True
  with assms(2) obtain k
    where k: "cleanup i = Some k" "next_node d0 \<le> k" "head d = head d0 @ [hint k q]"
    by (auto simp: hint_inv_def)
  have fresh: "k \<notin> nid ` set (head d0)"
    using assms(1) k(2) by (auto simp: wf_document_def)
  have "d = \<lparr>head = head d0 @ [(hint k q)\<lparr>nid := k\<rparr>], next_node = next_node d\<rparr>"
    using k(3) by (simp add: hint_def)
  then show ?thesis
    using run_cleanup_last [OF fresh, of "hint k q" "next_node d"] k(1) by simp
next
  case False
  with assms(2) have "cleanup i = None" and "head d = head d0"
    by (auto simp: hint_inv_def)
  then show ?thesis by simp
qed

text \<open>
  Every later render runs the second effect again, since the \<^verbatim>\<open>sources\<close> object in its
  dependencies is new: the old link is removed and, if asked for, a new one is added.
\<close>

lemma hint_inv_update:
  assumes wf: "wf_document d0" and inv: "hint_inv d0 q (i, d)"
  shows "hint_inv d0 p (update e p (i, d))"
proof -
  let ?d1 = "\<lparr>head = head d0, next_node = next_node d\<rparr>"
  from inv have le: "next_node d0 \<le> next_node d"
    and older: "snd (snd (snd (deps2 i))) < renders i"
    by (auto simp: hint_inv_def)
  from older have changed: "(src p, loading_of p, priority_of p, renders i) \<noteq> deps2 i"
    by (cases "deps2 i") auto
  have cleaned: "run_cleanup (cleanup i) d = ?d1"
    by (rule hint_inv_cleanup [OF wf inv])
  have wf1: "wf_document ?d1"
    by (rule wf_document_grow [OF wf le])
  show ?thesis
  proof (cases "loading_of p = Eager \<and> priority_of p = High")
    case True
    then show ?thesis
      using preload_effect_on [OF wf1, of p] changed cleaned le
      by (simp add: hint_inv_def update_def Let_def)
  next
    case False
    then show ?thesis
      using preload_effect_off [of p "generateSources (src p)" ?d1] changed cleaned le
      by (simp add: hint_inv_def update_def Let_def)
  qed
qed

lemma hint_inv_renders:
  assumes wf: "wf_document d0"
  shows "hint_inv d0 q s \<Longrightarrow>
    hint_inv d0 (snd (last ((e0, q) # later))) (foldl (\<lambda>s (e, p). update e p s) s later)"
proof (induction later arbitrary: s q e0)
  case Nil
  then show ?case by simp
next
  case (Cons a later)
  obtain e p where a: "a = (e, p)"
    by (cases a)
  obtain i d where s: "s = (i, d)"
    by (cases s)
  have "hint_inv d0 p (update e p s)"
    using hint_inv_update [OF wf] Cons.prems s by blast
  from Cons.IH [OF this, of e] show ?case
    by (simp add: a)
qed

lemma hint_inv_lifetime:
  assumes wf: "wf_document d0"
  shows "hint_inv d0 (snd (last (first # later))) (lifetime first later d0)"
  unfolding lifetime_def
  using hint_inv_renders [OF wf hint_inv_mount [OF wf, of "snd first" "fst first"], of "fst first" later]
  by simp

lemma hint_href:
  "url_or_md (avif (generateSources s)) =
     (if startsWith s ''/Collection/'' then replace_raster_ext s @ ''-md.avif'' else s)"
  by (simp add: generateSources_def Let_def)

text \<open>
  C7. An instance is mounted into a well-formed document and rendered any number of
  times, with any props; \<open>p\<close> are the props of the last render. If \<open>p\<close> has
  \<^verbatim>\<open>loading="eager"\<close> and \<^verbatim>\<open>priority="high"\<close>, the head is the initial head followed by
  exactly one new link, with \<^verbatim>\<open>rel=preload\<close>, \<^verbatim>\<open>as=image\<close>, high fetch priority and, as href,
  the avif "md" variant of the current \<^verbatim>\<open>src\<close> (the plain \<^verbatim>\<open>src\<close> in the passthrough case);
  no link of an earlier render is left. Otherwise the head is the initial head. After
  unmounting, the head is the initial head. No other code changes the head in between.
\<close>

theorem preload_hint_lifecycle:
  assumes "wf_document d0"
    and "lifetime first later d0 = (i, d)"
    and "p = snd (last (first # later))"
  shows "(loading_of p = Eager \<and> priority_of p = High \<longrightarrow>
            (\<exists>k. k \<notin> nid ` set (head d0) \<and>
                 head d = head d0 @
                   [\<lparr>nid = k, rel = ''preload'', as_attr = ''image'',
                     href = (if startsWith (src p) ''/Collection/''
                             then replace_raster_ext (src p) @ ''-md.avif'' else src p),
                     fetchPriority = ''high''\<rparr>])) \<and>
         (\<not> (loading_of p = Eager \<and> priority_of p = High) \<longrightarrow> head d = head d0) \<and>
         head (unmount (i, d)) = head d0"
proof -
  have inv: "hint_inv d0 p (i, d)"
    using hint_inv_lifetime [OF assms(1), of first later] assms(2,3) by simp
  have after_unmount: "head (unmount (i, d)) = head d0"
    using hint_inv_cleanup [OF assms(1) inv] by (simp add: unmount_def)
  have on: "\<exists>k. k \<notin> nid ` set (head d0) \<and> head d = head d0 @ [hint k p]"
    if "loading_of p = Eager \<and> priority_of p = High"
  proof -
    from that inv obtain k where k: "next_node d0 \<le> k" "head d = head d0 @ [hint k p]"
      by (auto simp: hint_inv_def)
    have "k \<notin> nid ` set (head d0)"
      using assms(1) k(1) by (auto simp: wf_document_def)
    with k show ?thesis by blast
  qed
  have off: "head d = head d0" if "\<not> (loading_of p = Eager \<and> priority_of p = High)"
    using that inv by (auto simp: hint_inv_def)
  show ?thesis
    using on off after_unmount hint_href [of "src p"] unfolding hint_def by auto
qed

theorem preload_hint_lifecycle_witness:
  "wf_document \<lparr>head = [\<lparr>nid = 0, rel = ''stylesheet'', as_attr = [], href = ''/app.css'',
                          fetchPriority = ''auto''\<rparr>], next_node = 1\<rparr> \<and>
   (\<exists>k. k \<noteq> 0 \<and>
      head (snd (lifetime
          (clock 1, (demo_props ''/Collection/photo.jpg'')\<lparr>loading := Some Eager, priority := Some High\<rparr>)
          [(clock 2, (demo_props ''/Collection/photo.jpg'')\<lparr>loading := Some Eager, priority := Some High\<rparr>),
           (clock 3, (demo_props ''https://cdn.example.com/b.png'')\<lparr>loading := Some Eager, priority := Some High\<rparr>)]
          \<lparr>head = [\<lparr>nid = 0, rel = ''stylesheet'', as_attr = [], href = ''/app.css'',
                     fetchPriority = ''auto''\<rparr>], next_node = 1\<rparr>)) =
        [\<lparr>nid = 0, rel = ''stylesheet'', as_attr = [], href = ''/app.css'', fetchPriority = ''auto''\<rparr>,
         \<lparr>nid = k, rel = ''preload'', as_attr = ''image'', href = ''https://cdn.example.com/b.png'',
          fetchPriority = ''high''\<rparr>]) \<and>
   head (unmount (lifetime
          (clock 1, (demo_props ''/Collection/photo.jpg'')\<lparr>loading := Some Eager, priority := Some High\<rparr>)
          [(clock 2, (demo_props ''/Collection/photo.jpg'')\<lparr>loading := Some Eager, priority := Some High\<rparr>),
           (clock 3, (demo_props ''https://cdn.example.com/b.png'')\<lparr>loading := Some Eager, priority := Some High\<rparr>)]
          \<lparr>head = [\<lparr>nid = 0, rel = ''stylesheet'', as_attr = [], href = ''/app.css'',
                     fetchPriority = ''auto''\<rparr>], next_node = 1\<rparr>)) =
     [\<lparr>nid = 0, rel = ''stylesheet'', as_attr = [], href = ''/app.css'', fetchPriority = ''auto''\<rparr>]"
proof -
  let ?d0 = "\<lparr>head = [\<lparr>nid = 0, rel = ''stylesheet'', as_attr = [], href = ''/app.css'',
                          fetchPriority = ''auto''\<rparr>], next_node = 1\<rparr>"
  let ?a = "(demo_props ''/Collection/photo.jpg'')\<lparr>loading := Some Eager, priority := Some High\<rparr>"
  let ?b = "(demo_props ''https://cdn.example.com/b.png'')\<lparr>loading := Some Eager, priority := Some High\<rparr>"
  have wf: "wf_document ?d0"
    by (simp add: wf_document_def)
  obtain i d where run: "lifetime (clock 1, ?a) [(clock 2, ?a), (clock 3, ?b)] ?d0 = (i, d)"
    by (cases "lifetime (clock 1, ?a) [(clock 2, ?a), (clock 3, ?b)] ?d0")
  have on: "loading_of ?b = Eager \<and> priority_of ?b = High"
    by (simp add: loading_of_def priority_of_def)
  have there: "\<not> startsWith (src ?b) ''/Collection/''" "src ?b = ''https://cdn.example.com/b.png''"
    by (simp_all add: startsWith_def demo_props_def)
  have "(\<exists>k. k \<noteq> 0 \<and> head d = head ?d0 @
            [\<lparr>nid = k, rel = ''preload'', as_attr = ''image'',
              href = ''https://cdn.example.com/b.png'', fetchPriority = ''high''\<rparr>]) \<and>
        head (unmount (i, d)) = head ?d0"
    using on there preload_hint_lifecycle [OF wf run, of ?b]
    by simp
  then show ?thesis
    unfolding run using wf by simp
qed

end
